theory Spec2Isabelle
  imports Complex_Main "HOL-Library.Sublist"
begin

section \<open>The brush selection tool: data model\<close>

text \<open>
  The repository holds two variants of one QGIS map tool:
  \<^item> \<^verbatim>\<open>src/brush_selection_plugin.py\<close>, restricted to polygon layers (variant \<open>Polygon\<close>);
  \<^item> \<^verbatim>\<open>src/BrushSelectionTool/brush_selection_plugin.py\<close>, which adds the Shift
    modifier, the wheel handler and the renderer visibility check (variant \<open>Renderer\<close>).
  Functions that are the same in both files are embedded once; functions that differ
  take the variant, or are embedded twice with the suffixes \<open>_poly\<close> and \<open>_rend\<close>.

  Coordinates are Python floats; they are idealised as reals. Everything the host (QGIS)
  provides is a parameter: the geometry engine is a record of functions, the canvas and
  the layers are a record of the host's state. A host call that can raise returns
  \<open>exn + 'a\<close>, \<open>Inl\<close> being the exception.
\<close>

datatype variant = Polygon | Renderer

text \<open>A Python exception (an instance of \<open>Exception\<close>) raised by a host call.\<close>

datatype exn = Exception string

text \<open>\<open>QgsPointXY\<close>: a map-space coordinate pair.\<close>

type_synonym point = "real \<times> real"

text \<open>\<open>QgsRectangle\<close>.\<close>

record rect =
  xMinimum :: real
  yMinimum :: real
  xMaximum :: real
  yMaximum :: real

text \<open>
  The geometry engine (\<open>QgsGeometry\<close>) over an opaque geometry type \<open>'g\<close>.
  \<open>isNull\<close> is the falsity of a geometry object (\<open>not fgeom\<close>).
\<close>

record 'g engine =
  fromPointXY :: "point \<Rightarrow> exn + 'g"
  fromPolylineXY :: "point list \<Rightarrow> exn + 'g"
  buffer :: "'g \<Rightarrow> real \<Rightarrow> int \<Rightarrow> exn + 'g"
  isNull :: "'g \<Rightarrow> bool"
  isEmpty :: "'g \<Rightarrow> bool"
  boundingBox :: "'g \<Rightarrow> rect"
  intersects :: "'g \<Rightarrow> 'g \<Rightarrow> bool"

text \<open>
  A feature of a layer: its identifier, its geometry, and what
  \<open>renderer.willRenderFeature\<close> answers for it (or raises).
\<close>

record 'g feature =
  fid :: int
  fgeom :: 'g
  will_render :: "exn + bool"

text \<open>
  A map layer. \<open>selected\<close> is the layer's persistent selection set. The three
  \<open>_exn\<close> fields say whether the host call raises on this layer: requesting the
  features, setting up the renderer (\<open>layer.renderer().clone()\<close>, \<open>startRender\<close>),
  applying a selection (\<open>selectByIds\<close>, \<open>removeSelection\<close>).
\<close>

record 'g layer =
  lname :: string
  is_vector :: bool
  is_polygon :: bool
  feats :: "'g feature list"
  selected :: "int set"
  getFeatures_exn :: "exn option"
  renderer_exn :: "exn option"
  select_exn :: "exn option"

text \<open>
  The status bar message, without the elapsed time (real time is not modelled):
  the total and the per-layer counts, or the zero message.
\<close>

datatype status_msg = SelectedMsg nat "(string \<times> nat) list" | ZeroMsg

text \<open>
  The host's state: the canvas (\<open>mapUnitsPerPixel\<close>, the render flag), the project's
  layers and the index of the active one, whether enumerating the layers raises, the
  last message shown in the status bar, and whether showing a message raises.
\<close>

record 'g world =
  mupp :: real
  render_flag :: bool
  layers :: "'g layer list"
  active :: "nat option"
  layers_exn :: "exn option"
  status :: "status_msg option"
  statusbar_exn :: "exn option"

text \<open>
  The fields of \<open>BrushSelectionTool\<close>. The two rubber bands hold the geometry they show
  (\<open>None\<close> after \<open>reset\<close>). \<open>shift_pressed\<close> exists in the \<open>Renderer\<close> variant only; the
  \<open>Polygon\<close> variant never reads or writes it.
\<close>

record 'g tool =
  radius_px :: int
  segments :: int
  add_to_selection :: bool
  active_layer_only :: bool
  dragging :: bool
  path_points :: "point list"
  last_added :: "point option"
  shift_pressed :: bool
  stroke_rb :: "'g option"
  cursor_rb :: "'g option"

text \<open>\<open>__init__\<close>: the constructor stores \<open>int(radius_px)\<close> and \<open>int(segments)\<close> unclamped.\<close>

definition init_tool :: "int \<Rightarrow> int \<Rightarrow> bool \<Rightarrow> bool \<Rightarrow> 'g tool" where
  "init_tool r n add_sel active_only =
     \<lparr>radius_px = r, segments = n, add_to_selection = add_sel,
      active_layer_only = active_only, dragging = False, path_points = [],
      last_added = None, shift_pressed = False, stroke_rb = None, cursor_rb = None\<rparr>"

datatype button = LeftButton | OtherButton

text \<open>
  A mouse event: \<open>button()\<close>, whether \<open>buttons()\<close> contains the left button, whether
  \<open>modifiers()\<close> contains Shift, and the map point of the pointer (\<open>event.mapPoint()\<close>,
  or \<open>toMapCoordinates(event.pos())\<close> in the \<open>Polygon\<close> variant).
\<close>

record mouse_event =
  ev_button :: button
  ev_left_held :: bool
  ev_shift :: bool
  ev_point :: point

text \<open>
  A wheel event: Shift held, \<open>angleDelta().y()\<close>, and the pointer's map point when the
  event has a \<open>pos\<close> attribute.
\<close>

record wheel_event =
  wh_shift :: bool
  wh_delta :: int
  wh_point :: "point option"

section \<open>Public knobs\<close>

definition setRadiusPx :: "int \<Rightarrow> 'g tool \<Rightarrow> 'g tool" where
  "setRadiusPx v s = s\<lparr>radius_px := max 1 v\<rparr>"

definition setActiveLayerOnly :: "bool \<Rightarrow> 'g tool \<Rightarrow> 'g tool" where
  "setActiveLayerOnly val s = s\<lparr>active_layer_only := val\<rparr>"

definition setAddToSelection :: "bool \<Rightarrow> 'g tool \<Rightarrow> 'g tool" where
  "setAddToSelection val s = s\<lparr>add_to_selection := val\<rparr>"

section \<open>Stroke sampling\<close>

definition radius_mu :: "real \<Rightarrow> 'g tool \<Rightarrow> real" where
  "radius_mu m s = real_of_int (radius_px s) * m"

definition dist_sq :: "point \<Rightarrow> point \<Rightarrow> real" where
  "dist_sq a b =
     (let dx = fst a - fst b; dy = snd a - snd b in dx * dx + dy * dy)"

text \<open>
  \<open>_append_point_if_far\<close>, with \<open>m\<close> the canvas's \<open>mapUnitsPerPixel()\<close> when it is called.
\<close>

definition append_point_if_far :: "real \<Rightarrow> point \<Rightarrow> bool \<Rightarrow> 'g tool \<Rightarrow> 'g tool" where
  "append_point_if_far m mp force s =
     (case last_added s of
        None \<Rightarrow> s\<lparr>path_points := path_points s @ [mp], last_added := Some mp\<rparr>
      | Some la \<Rightarrow>
          if force then s\<lparr>path_points := path_points s @ [mp], last_added := Some mp\<rparr>
          else
            let threshold_mu = 2 * m in
            if dist_sq mp la \<ge> threshold_mu * threshold_mu
            then s\<lparr>path_points := path_points s @ [mp], last_added := Some mp\<rparr>
            else s)"

section \<open>The corridor builder\<close>

text \<open>The two chains of host calls inside the \<open>try\<close> block of \<open>_build_stroke_geometry\<close>.\<close>

definition point_buffer :: "'g engine \<Rightarrow> point \<Rightarrow> real \<Rightarrow> int \<Rightarrow> exn + 'g" where
  "point_buffer E p r n =
     (case fromPointXY E p of Inl e \<Rightarrow> Inl e | Inr g \<Rightarrow> buffer E g r n)"

definition polyline_buffer :: "'g engine \<Rightarrow> point list \<Rightarrow> real \<Rightarrow> int \<Rightarrow> exn + 'g" where
  "polyline_buffer E ps r n =
     (case fromPolylineXY E ps of Inl e \<Rightarrow> Inl e | Inr line \<Rightarrow> buffer E line r n)"

text \<open>
  \<open>_build_stroke_geometry\<close>. The result is \<open>exn + 'g option\<close>: \<open>Inr None\<close> is Python's
  \<open>None\<close>, \<open>Inl\<close> would be an exception leaving the function. The \<open>except Exception\<close>
  clause is the \<open>Inl e \<Rightarrow> Inr None\<close> branch.
\<close>

definition build_stroke_geometry ::
  "'g engine \<Rightarrow> point list \<Rightarrow> real \<Rightarrow> int \<Rightarrow> exn + 'g option" where
  "build_stroke_geometry E points radius segs =
     (if points = [] then Inr None
      else
        case (if length points = 1 then point_buffer E (points ! 0) radius (max 8 segs)
              else polyline_buffer E points radius (max 8 segs)) of
          Inl e \<Rightarrow> Inr None
        | Inr g \<Rightarrow> Inr (Some g))"

text \<open>The test \<open>geom and not geom.isEmpty()\<close> on a builder result.\<close>

definition usable :: "'g engine \<Rightarrow> 'g option \<Rightarrow> bool" where
  "usable E r = (case r of None \<Rightarrow> False | Some g \<Rightarrow> \<not> isNull E g \<and> \<not> isEmpty E g)"

section \<open>Visual feedback\<close>

text \<open>\<open>_updateVisuals\<close>: the cursor circle. The host calls are not guarded, so it can raise.\<close>

definition updateVisuals ::
  "'g engine \<Rightarrow> real \<Rightarrow> point \<Rightarrow> 'g tool \<Rightarrow> (exn + unit) \<times> 'g tool" where
  "updateVisuals E m mp s =
     (case point_buffer E mp (radius_mu m s) (max 8 (segments s)) of
        Inl e \<Rightarrow> (Inl e, s)
      | Inr circle \<Rightarrow> (Inr (), s\<lparr>cursor_rb := Some circle\<rparr>))"

text \<open>\<open>_updateStrokeRubberBand\<close>: the live preview of the corridor.\<close>

definition updateStrokeRubberBand ::
  "'g engine \<Rightarrow> real \<Rightarrow> 'g tool \<Rightarrow> (exn + unit) \<times> 'g tool" where
  "updateStrokeRubberBand E m s =
     (if path_points s = [] then (Inr (), s\<lparr>stroke_rb := None\<rparr>)
      else
        case build_stroke_geometry E (path_points s) (radius_mu m s) (segments s) of
          Inl e \<Rightarrow> (Inl e, s)
        | Inr stroke \<Rightarrow>
            if usable E stroke then (Inr (), s\<lparr>stroke_rb := stroke\<rparr>) else (Inr (), s))"

section \<open>The host's feature store\<close>

text \<open>
  \<open>QgsRectangle.intersects\<close>: the two rectangles overlap (closed intervals on both axes).
\<close>

definition rect_intersects :: "rect \<Rightarrow> rect \<Rightarrow> bool" where
  "rect_intersects r1 r2 =
     (max (xMinimum r1) (xMinimum r2) \<le> min (xMaximum r1) (xMaximum r2) \<and>
      max (yMinimum r1) (yMinimum r2) \<le> min (yMaximum r1) (yMaximum r2))"

text \<open>
  \<open>layer.getFeatures(req)\<close> for a request with a filter rectangle and no exact-intersection
  flag: the host returns, in the layer's order, the features whose geometry's bounding
  box intersects the rectangle; or the call raises.
\<close>

definition getFeatures :: "'g engine \<Rightarrow> 'g layer \<Rightarrow> rect \<Rightarrow> exn + 'g feature list" where
  "getFeatures E layer r =
     (case getFeatures_exn layer of
        Some e \<Rightarrow> Inl e
      | None \<Rightarrow> Inr (filter (\<lambda>f. rect_intersects (boundingBox E (fgeom f)) r) (feats layer)))"

datatype select_method = SetSelection | AddToSelection

text \<open>
  \<open>layer.selectByIds(ids, method)\<close>: \<open>SetSelection\<close> makes the identifiers the whole
  selection, \<open>AddToSelection\<close> adds them to it.
\<close>

definition selectByIds :: "int list \<Rightarrow> select_method \<Rightarrow> 'g layer \<Rightarrow> exn + 'g layer" where
  "selectByIds ids method layer =
     (case select_exn layer of
        Some e \<Rightarrow> Inl e
      | None \<Rightarrow>
          Inr (layer\<lparr>selected :=
                 (case method of
                    SetSelection \<Rightarrow> set ids
                  | AddToSelection \<Rightarrow> selected layer \<union> set ids)\<rparr>))"

definition removeSelection :: "'g layer \<Rightarrow> exn + 'g layer" where
  "removeSelection layer =
     (case select_exn layer of
        Some e \<Rightarrow> Inl e
      | None \<Rightarrow> Inr (layer\<lparr>selected := {}\<rparr>))"

text \<open>\<open>statusBar().showMessage(msg)\<close> inside \<open>try ... except Exception: pass\<close>.\<close>

definition showMessage :: "status_msg \<Rightarrow> 'g world \<Rightarrow> 'g world" where
  "showMessage msg W =
     (case statusbar_exn W of Some e \<Rightarrow> W | None \<Rightarrow> W\<lparr>status := Some msg\<rparr>)"

section \<open>The selection engine\<close>

text \<open>
  \<open>_iter_target_layers\<close>, as the list of the indices of the layers it yields. The
  \<open>Polygon\<close> variant also asks for \<open>geometryType() == PolygonGeometry\<close>.
\<close>

definition eligible :: "variant \<Rightarrow> 'g layer \<Rightarrow> bool" where
  "eligible v layer =
     (case v of
        Polygon \<Rightarrow> is_vector layer \<and> is_polygon layer
      | Renderer \<Rightarrow> is_vector layer)"

definition iter_target_layers :: "variant \<Rightarrow> 'g tool \<Rightarrow> 'g world \<Rightarrow> exn + nat list" where
  "iter_target_layers v s W =
     (case layers_exn W of
        Some e \<Rightarrow> Inl e
      | None \<Rightarrow>
          if active_layer_only s then
            (case active W of
               None \<Rightarrow> Inr []
             | Some i \<Rightarrow>
                 if i < length (layers W) \<and> eligible v (layers W ! i) then Inr [i]
                 else Inr [])
          else Inr (filter (\<lambda>i. eligible v (layers W ! i)) [0..<length (layers W)]))"

text \<open>
  The inner loop of \<open>_select_features\<close> in the \<open>Polygon\<close> variant; \<open>ids\<close> is the list
  being appended to.
\<close>

fun match_ids_poly :: "'g engine \<Rightarrow> 'g \<Rightarrow> 'g feature list \<Rightarrow> int list \<Rightarrow> int list" where
  "match_ids_poly E geom [] ids = ids"
| "match_ids_poly E geom (feat # rest) ids =
     (if isNull E (fgeom feat) \<or> isEmpty E (fgeom feat) then match_ids_poly E geom rest ids
      else if intersects E (fgeom feat) geom
      then match_ids_poly E geom rest (ids @ [fid feat])
      else match_ids_poly E geom rest ids)"

text \<open>
  The inner loop in the \<open>Renderer\<close> variant: a feature that intersects is kept only if
  the renderer would draw it; the renderer's answer can raise.
\<close>

fun match_ids_rend ::
  "'g engine \<Rightarrow> 'g \<Rightarrow> 'g feature list \<Rightarrow> int list \<Rightarrow> exn + int list" where
  "match_ids_rend E geom [] ids = Inr ids"
| "match_ids_rend E geom (feat # rest) ids =
     (if isNull E (fgeom feat) \<or> isEmpty E (fgeom feat) then match_ids_rend E geom rest ids
      else if intersects E (fgeom feat) geom then
        (case will_render feat of
           Inl e \<Rightarrow> Inl e
         | Inr shown \<Rightarrow>
             if shown then match_ids_rend E geom rest (ids @ [fid feat])
             else match_ids_rend E geom rest ids)
      else match_ids_rend E geom rest ids)"

text \<open>The local variable \<open>should_add\<close> of the \<open>Renderer\<close> variant.\<close>

definition should_add :: "'g tool \<Rightarrow> bool" where
  "should_add s = (add_to_selection s \<or> shift_pressed s)"

text \<open>
  The body of the loop over the layers: the layer after it, the entries it appends to
  \<open>layer_counts\<close>, and what it adds to \<open>total\<close>; or the exception it raises.
\<close>

definition select_in_layer_poly ::
  "'g engine \<Rightarrow> 'g tool \<Rightarrow> 'g \<Rightarrow> rect \<Rightarrow> 'g layer
     \<Rightarrow> exn + ('g layer \<times> (string \<times> nat) list \<times> nat)" where
  "select_in_layer_poly E s geom bbox layer =
     (case getFeatures E layer bbox of
        Inl e \<Rightarrow> Inl e
      | Inr fs \<Rightarrow>
          let ids = match_ids_poly E geom fs [] in
          if ids \<noteq> [] then
            (case selectByIds ids
                    (if add_to_selection s then AddToSelection else SetSelection) layer of
               Inl e \<Rightarrow> Inl e
             | Inr layer' \<Rightarrow> Inr (layer', [(lname layer, length ids)], length ids))
          else Inr (layer, [], 0))"

definition select_in_layer_rend ::
  "'g engine \<Rightarrow> 'g tool \<Rightarrow> 'g \<Rightarrow> rect \<Rightarrow> 'g layer
     \<Rightarrow> exn + ('g layer \<times> (string \<times> nat) list \<times> nat)" where
  "select_in_layer_rend E s geom bbox layer =
     (case renderer_exn layer of
        Some e \<Rightarrow> Inl e
      | None \<Rightarrow>
          (case getFeatures E layer bbox of
             Inl e \<Rightarrow> Inl e
           | Inr fs \<Rightarrow>
               (case match_ids_rend E geom fs [] of
                  Inl e \<Rightarrow> Inl e
                | Inr ids \<Rightarrow>
                    if ids \<noteq> [] then
                      (case selectByIds ids
                              (if should_add s then AddToSelection else SetSelection) layer of
                         Inl e \<Rightarrow> Inl e
                       | Inr layer' \<Rightarrow>
                           Inr (layer', [(lname layer, length ids)], length ids))
                    else if \<not> should_add s then
                      (case removeSelection layer of
                         Inl e \<Rightarrow> Inl e
                       | Inr layer' \<Rightarrow> Inr (layer', [(lname layer, 0)], 0))
                    else Inr (layer, [(lname layer, 0)], 0))))"

definition select_in_layer ::
  "variant \<Rightarrow> 'g engine \<Rightarrow> 'g tool \<Rightarrow> 'g \<Rightarrow> rect \<Rightarrow> 'g layer
     \<Rightarrow> exn + ('g layer \<times> (string \<times> nat) list \<times> nat)" where
  "select_in_layer v =
     (case v of Polygon \<Rightarrow> select_in_layer_poly | Renderer \<Rightarrow> select_in_layer_rend)"

text \<open>
  The loop over the target layers. An exception leaves the loop with the layers
  already processed changed and the others untouched.
\<close>

fun layer_loop ::
  "('g layer \<Rightarrow> exn + ('g layer \<times> (string \<times> nat) list \<times> nat)) \<Rightarrow> nat list
     \<Rightarrow> (string \<times> nat) list \<times> nat \<Rightarrow> 'g world
     \<Rightarrow> (exn + (string \<times> nat) list \<times> nat) \<times> 'g world" where
  "layer_loop body [] acc W = (Inr acc, W)"
| "layer_loop body (i # rest) acc W =
     (case body (layers W ! i) of
        Inl e \<Rightarrow> (Inl e, W)
      | Inr (layer', entries, n) \<Rightarrow>
          layer_loop body rest (fst acc @ entries, snd acc + n)
            (W\<lparr>layers := (layers W)[i := layer']\<rparr>))"

text \<open>
  \<open>_select_features\<close>: rendering off, the loop, rendering on, the status message.
  There is no \<open>try ... finally\<close> around the loop.
\<close>

definition select_features ::
  "variant \<Rightarrow> 'g engine \<Rightarrow> 'g tool \<Rightarrow> 'g \<Rightarrow> 'g world \<Rightarrow> (exn + unit) \<times> 'g world" where
  "select_features v E s geom W =
     (let bbox = boundingBox E geom;
          W1 = W\<lparr>render_flag := False\<rparr>
      in case iter_target_layers v s W1 of
           Inl e \<Rightarrow> (Inl e, W1)
         | Inr idxs \<Rightarrow>
             (case layer_loop (select_in_layer v E s geom bbox) idxs ([], 0) W1 of
                (Inl e, W2) \<Rightarrow> (Inl e, W2)
              | (Inr (layer_counts, total_sel), W2) \<Rightarrow>
                  (Inr (),
                   showMessage
                     (if layer_counts \<noteq> [] then SelectedMsg total_sel layer_counts else ZeroMsg)
                     (W2\<lparr>render_flag := True\<rparr>))))"

section \<open>Canvas events\<close>

text \<open>
  The sampler's part of \<open>canvasPressEvent\<close> (the stroke is emptied and the press
  point appended with \<open>force=True\<close>) and of \<open>canvasReleaseEvent\<close> (the drag ends and
  the release point is appended with \<open>force=True\<close>).
\<close>

definition begin_stroke :: "real \<Rightarrow> point \<Rightarrow> 'g tool \<Rightarrow> 'g tool" where
  "begin_stroke m mp s =
     append_point_if_far m mp True (s\<lparr>path_points := [], last_added := None\<rparr>)"

definition finalize_stroke :: "real \<Rightarrow> point \<Rightarrow> 'g tool \<Rightarrow> 'g tool" where
  "finalize_stroke m mp s = append_point_if_far m mp True (s\<lparr>dragging := False\<rparr>)"

text \<open>
  A handler returns how it ended (\<open>Inl\<close>: an exception left it) and the tool as the
  handler left it: the assignments made before an exception stay.
\<close>

definition canvasPressEvent ::
  "variant \<Rightarrow> 'g engine \<Rightarrow> 'g world \<Rightarrow> mouse_event \<Rightarrow> 'g tool \<Rightarrow> (exn + unit) \<times> 'g tool" where
  "canvasPressEvent v E W ev s =
     (if ev_button ev \<noteq> LeftButton then (Inr (), s)
      else
        let s1 = s\<lparr>dragging := True\<rparr>;
            s2 = (case v of Polygon \<Rightarrow> s1 | Renderer \<Rightarrow> s1\<lparr>shift_pressed := ev_shift ev\<rparr>);
            s3 = begin_stroke (mupp W) (ev_point ev) s2
        in updateVisuals E (mupp W) (ev_point ev) s3)"

definition canvasMoveEvent ::
  "'g engine \<Rightarrow> 'g world \<Rightarrow> mouse_event \<Rightarrow> 'g tool \<Rightarrow> (exn + unit) \<times> 'g tool" where
  "canvasMoveEvent E W ev s =
     (case updateVisuals E (mupp W) (ev_point ev) s of
        (Inl e, s1) \<Rightarrow> (Inl e, s1)
      | (Inr u, s1) \<Rightarrow>
          if \<not> dragging s1 \<or> \<not> ev_left_held ev then (Inr (), s1)
          else
            updateStrokeRubberBand E (mupp W)
              (append_point_if_far (mupp W) (ev_point ev) False s1))"

definition canvasReleaseEvent ::
  "variant \<Rightarrow> 'g engine \<Rightarrow> 'g world \<Rightarrow> mouse_event \<Rightarrow> 'g tool
     \<Rightarrow> (exn + unit) \<times> 'g tool \<times> 'g world" where
  "canvasReleaseEvent v E W ev s =
     (if ev_button ev \<noteq> LeftButton \<or> \<not> dragging s then (Inr (), s, W)
      else
        let s1 = finalize_stroke (mupp W) (ev_point ev) s in
        case build_stroke_geometry E (path_points s1) (radius_mu (mupp W) s1) (segments s1) of
          Inl e \<Rightarrow> (Inl e, s1, W)
        | Inr stroke_geom \<Rightarrow>
            (case (case stroke_geom of
                     None \<Rightarrow> (Inr (), W)
                   | Some g \<Rightarrow>
                       if usable E (Some g) then select_features v E s1 g W
                       else (Inr (), W)) of
               (Inl e, W') \<Rightarrow> (Inl e, s1, W')
             | (Inr u, W') \<Rightarrow>
                 (Inr (),
                  s1\<lparr>path_points := [], last_added := None, stroke_rb := None\<rparr>, W')))"

text \<open>
  \<open>wheelEvent\<close>, \<open>keyPressEvent\<close> and \<open>keyReleaseEvent\<close> of the \<open>Renderer\<close> variant (the
  \<open>Polygon\<close> variant inherits the base class's, which leave the tool's fields alone).
\<close>

definition wheelEvent ::
  "'g engine \<Rightarrow> 'g world \<Rightarrow> wheel_event \<Rightarrow> 'g tool \<Rightarrow> (exn + unit) \<times> 'g tool" where
  "wheelEvent E W ev s =
     (if wh_shift ev then
        let step = (if wh_delta ev > 0 then 2 else - 2);
            new_radius = max 1 (min 200 (radius_px s + step))
        in if new_radius \<noteq> radius_px s then
             let s1 = setRadiusPx new_radius s in
             (case wh_point ev of
                None \<Rightarrow> (Inr (), s1)
              | Some mp \<Rightarrow> updateVisuals E (mupp W) mp s1)
           else (Inr (), s)
      else (Inr (), s))"

definition keyPressEvent :: "bool \<Rightarrow> 'g tool \<Rightarrow> 'g tool" where
  "keyPressEvent is_shift_key s = (if is_shift_key then s\<lparr>shift_pressed := True\<rparr> else s)"

definition keyReleaseEvent :: "bool \<Rightarrow> 'g tool \<Rightarrow> 'g tool" where
  "keyReleaseEvent is_shift_key s = (if is_shift_key then s\<lparr>shift_pressed := False\<rparr> else s)"

definition deactivate :: "'g tool \<Rightarrow> 'g tool" where
  "deactivate s = s\<lparr>stroke_rb := None, cursor_rb := None\<rparr>"

text \<open>
  Everything that can happen to a tool, and the tool after it. The host's state at the
  moment of the event is a parameter of the step.
\<close>

datatype event =
    Press mouse_event
  | Move mouse_event
  | Release mouse_event
  | Wheel wheel_event
  | KeyPress bool
  | KeyRelease bool
  | Deactivate
  | SetRadius int
  | SetActiveOnly bool
  | SetAddTo bool

definition step :: "variant \<Rightarrow> 'g engine \<Rightarrow> 'g world \<Rightarrow> event \<Rightarrow> 'g tool \<Rightarrow> 'g tool" where
  "step v E W ev s =
     (case ev of
        Press me \<Rightarrow> snd (canvasPressEvent v E W me s)
      | Move me \<Rightarrow> snd (canvasMoveEvent E W me s)
      | Release me \<Rightarrow> fst (snd (canvasReleaseEvent v E W me s))
      | Wheel we \<Rightarrow> (case v of Polygon \<Rightarrow> s | Renderer \<Rightarrow> snd (wheelEvent E W we s))
      | KeyPress k \<Rightarrow> (case v of Polygon \<Rightarrow> s | Renderer \<Rightarrow> keyPressEvent k s)
      | KeyRelease k \<Rightarrow> (case v of Polygon \<Rightarrow> s | Renderer \<Rightarrow> keyReleaseEvent k s)
      | Deactivate \<Rightarrow> deactivate s
      | SetRadius r \<Rightarrow> setRadiusPx r s
      | SetActiveOnly b \<Rightarrow> setActiveLayerOnly b s
      | SetAddTo b \<Rightarrow> setAddToSelection b s)"

text \<open>The tool states a sequence of events can produce, starting from the constructor.\<close>

inductive reachable :: "variant \<Rightarrow> 'g engine \<Rightarrow> 'g tool \<Rightarrow> bool" for v E where
  reachable_init: "reachable v E (init_tool r n add_sel active_only)"
| reachable_step: "reachable v E s \<Longrightarrow> reachable v E (step v E W ev s)"

text \<open>
  A run of sampler calls without \<open>force\<close>, each with the point and the canvas's
  \<open>mapUnitsPerPixel()\<close> at that call; and a run of move events, each with the host's
  state at the event.
\<close>

fun extends :: "(point \<times> real) list \<Rightarrow> 'g tool \<Rightarrow> 'g tool" where
  "extends [] s = s"
| "extends (pm # rest) s = extends rest (append_point_if_far (snd pm) (fst pm) False s)"

fun drag_moves :: "'g engine \<Rightarrow> ('g world \<times> mouse_event) list \<Rightarrow> 'g tool \<Rightarrow> 'g tool" where
  "drag_moves E [] s = s"
| "drag_moves E (we # rest) s = drag_moves E rest (snd (canvasMoveEvent E (fst we) (snd we) s))"

section \<open>Notions the properties are stated with\<close>

text \<open>The Euclidean distance of two points.\<close>

definition euclid :: "point \<Rightarrow> point \<Rightarrow> real" where
  "euclid a b = sqrt (dist_sq a b)"

text \<open>
  \<open>spaced q ks\<close>: in the chain \<open>q, ks\<close> every point lies at least \<open>2 * m\<close> from the one
  before it, \<open>m\<close> being the map units per pixel recorded with the later point.
\<close>

fun spaced :: "point \<Rightarrow> (point \<times> real) list \<Rightarrow> bool" where
  "spaced q [] = True"
| "spaced q (pm # ks) = (2 * snd pm \<le> euclid (fst pm) q \<and> spaced (fst pm) ks)"

text \<open>
  Two readings of the release handler, to compare \<open>canvasReleaseEvent\<close> with.
  \<open>release_by_polyline\<close> is a left-button release during a drag as it would be with a
  builder that has the polyline branch only: the finalized stroke goes to the polyline
  buffer whatever its length, a failure of the buffer is no corridor. \<open>release_selecting\<close>
  is that release when the corridor is the given geometry: the selection pass runs on it
  and the stroke is reset unless the pass raises.
\<close>

definition release_by_polyline ::
  "variant \<Rightarrow> 'g engine \<Rightarrow> 'g world \<Rightarrow> mouse_event \<Rightarrow> 'g tool
     \<Rightarrow> (exn + unit) \<times> 'g tool \<times> 'g world" where
  "release_by_polyline v E W ev s =
     (let s1 = finalize_stroke (mupp W) (ev_point ev) s in
      case (case polyline_buffer E (path_points s1) (radius_mu (mupp W) s1)
                   (max 8 (segments s1)) of
              Inl e \<Rightarrow> (Inr (), W)
            | Inr g \<Rightarrow>
                if usable E (Some g) then select_features v E s1 g W else (Inr (), W)) of
        (Inl e, W') \<Rightarrow> (Inl e, s1, W')
      | (Inr u, W') \<Rightarrow>
          (Inr (), s1\<lparr>path_points := [], last_added := None, stroke_rb := None\<rparr>, W'))"

definition release_selecting ::
  "variant \<Rightarrow> 'g engine \<Rightarrow> 'g world \<Rightarrow> mouse_event \<Rightarrow> 'g tool \<Rightarrow> 'g
     \<Rightarrow> (exn + unit) \<times> 'g tool \<times> 'g world" where
  "release_selecting v E W ev s g =
     (let s1 = finalize_stroke (mupp W) (ev_point ev) s in
      case select_features v E s1 g W of
        (Inl e, W') \<Rightarrow> (Inl e, s1, W')
      | (Inr u, W') \<Rightarrow>
          (Inr (), s1\<lparr>path_points := [], last_added := None, stroke_rb := None\<rparr>, W'))"

text \<open>
  The exact-intersection result of the specification, with no prefilter: the
  identifiers of the features, in order, that have a geometry intersecting the corridor.
\<close>

definition exact_ids :: "'g engine \<Rightarrow> 'g \<Rightarrow> 'g feature list \<Rightarrow> int list" where
  "exact_ids E geom fs =
     map fid (filter (\<lambda>f. \<not> isNull E (fgeom f) \<and> \<not> isEmpty E (fgeom f) \<and>
                            intersects E (fgeom f) geom) fs)"



section \<open>An example host\<close>

text \<open>
  A small geometry engine for concrete runs: a geometry is an axis-parallel box, or
  null. A point is a box of extent zero, a polyline is the box around its vertices, the
  buffer grows a box by the radius on every side.
\<close>

definition box_around :: "point list \<Rightarrow> rect" where
  "box_around ps =
     \<lparr>xMinimum = foldr min (map fst ps) (fst (hd ps)),
      yMinimum = foldr min (map snd ps) (snd (hd ps)),
      xMaximum = foldr max (map fst ps) (fst (hd ps)),
      yMaximum = foldr max (map snd ps) (snd (hd ps))\<rparr>"

definition grow :: "real \<Rightarrow> rect \<Rightarrow> rect" where
  "grow r b =
     \<lparr>xMinimum = xMinimum b - r, yMinimum = yMinimum b - r,
      xMaximum = xMaximum b + r, yMaximum = yMaximum b + r\<rparr>"

definition box_engine :: "rect option engine" where
  "box_engine =
     \<lparr>fromPointXY = (\<lambda>p. Inr (Some (box_around [p]))),
      fromPolylineXY = (\<lambda>ps. if ps = [] then Inr None else Inr (Some (box_around ps))),
      buffer = (\<lambda>g r n. Inr (map_option (grow r) g)),
      isNull = (\<lambda>g. g = None),
      isEmpty = (\<lambda>g. case g of
                        None \<Rightarrow> True
                      | Some b \<Rightarrow> xMaximum b < xMinimum b \<or> yMaximum b < yMinimum b),
      boundingBox = (\<lambda>g. case g of
                            None \<Rightarrow> \<lparr>xMinimum = 0, yMinimum = 0, xMaximum = 0, yMaximum = 0\<rparr>
                          | Some b \<Rightarrow> b),
      intersects = (\<lambda>g h. case g of
                             None \<Rightarrow> False
                           | Some a \<Rightarrow> (case h of None \<Rightarrow> False | Some b \<Rightarrow> rect_intersects a b))\<rparr>"


text \<open>The same engine, except that a polyline of coincident vertices is refused.\<close>

definition strict_engine :: "rect option engine" where
  "strict_engine =
     box_engine\<lparr>fromPolylineXY :=
       (\<lambda>ps. if length (remdups ps) < 2 then Inl (Exception ''zero-length line'')
             else fromPolylineXY box_engine ps)\<rparr>"

text \<open>
  A polygon layer with three features: 3 at the origin, 4 near \<open>(10, 0)\<close>, 7 far away;
  and a host with that layer active, at one map unit per pixel.
\<close>

definition demo_feature :: "int \<Rightarrow> real \<Rightarrow> real \<Rightarrow> rect option feature" where
  "demo_feature i x y =
     \<lparr>fid = i,
      fgeom = Some \<lparr>xMinimum = x, yMinimum = y, xMaximum = x + 1, yMaximum = y + 1\<rparr>,
      will_render = Inr True\<rparr>"

definition demo_layer :: "int set \<Rightarrow> rect option layer" where
  "demo_layer sel =
     \<lparr>lname = ''parcels'', is_vector = True, is_polygon = True,
      feats = [demo_feature 3 0 0, demo_feature 4 10 0, demo_feature 7 100 100],
      selected = sel, getFeatures_exn = None, renderer_exn = None, select_exn = None\<rparr>"

definition demo_world :: "int set \<Rightarrow> rect option world" where
  "demo_world sel =
     \<lparr>mupp = 1, render_flag = True, layers = [demo_layer sel], active = Some 0,
      layers_exn = None, status = None, statusbar_exn = None\<rparr>"

definition demo_tool :: "bool \<Rightarrow> rect option tool" where
  "demo_tool add_sel = init_tool 20 8 add_sel True"

text \<open>
  Two corridors: the one the example engine builds for a stroke from \<open>(0, 0)\<close> to
  \<open>(10, 0)\<close> with a radius of 20, which meets the features 3 and 4; and the one of a
  click at \<open>(50, 50)\<close>, which meets no feature.
\<close>

definition demo_corridor :: "rect option" where
  "demo_corridor = Some \<lparr>xMinimum = - 20, yMinimum = - 20, xMaximum = 30, yMaximum = 20\<rparr>"

definition far_corridor :: "rect option" where
  "far_corridor = Some \<lparr>xMinimum = 30, yMinimum = 30, xMaximum = 70, yMaximum = 70\<rparr>"

definition left_at :: "point \<Rightarrow> mouse_event" where
  "left_at p = \<lparr>ev_button = LeftButton, ev_left_held = True, ev_shift = False, ev_point = p\<rparr>"

section \<open>Unfolding for concrete runs\<close>

lemmas run_simps =
  select_features_def iter_target_layers_def eligible_def select_in_layer_def
  select_in_layer_poly_def select_in_layer_rend_def getFeatures_def selectByIds_def
  removeSelection_def showMessage_def should_add_def rect_intersects_def
  canvasPressEvent_def canvasMoveEvent_def canvasReleaseEvent_def begin_stroke_def
  finalize_stroke_def append_point_if_far_def updateVisuals_def updateStrokeRubberBand_def
  build_stroke_geometry_def point_buffer_def polyline_buffer_def usable_def radius_mu_def
  dist_sq_def Let_def

lemmas demo_simps =
  box_engine_def strict_engine_def box_around_def grow_def demo_feature_def demo_layer_def
  demo_world_def demo_tool_def init_tool_def left_at_def demo_corridor_def far_corridor_def

section \<open>The radius setter\<close>

text \<open>
  C3, as the specification states it: a radius above 200 is stored as 200. The setter
  has no upper bound: 500 is stored as 500.
\<close>

theorem setRadiusPx_above_maximum_kept:
  "radius_px (setRadiusPx 500 (demo_tool True)) = 500 \<and>
   radius_px (setRadiusPx 500 (demo_tool True)) \<noteq> 200"
  by (simp add: setRadiusPx_def demo_tool_def init_tool_def)

text \<open>
  C3, amended: for every integer \<open>v\<close> the setter stores \<open>max 1 v\<close>, so 1 for a value
  below 1 and the value itself otherwise, also above 200. The maximum of 200 is applied
  by the wheel handler of the \<open>Renderer\<close> variant, which clamps to 1..200 before it
  calls the setter: after a Shift+wheel event the radius lies in 1..200 whatever it was.
\<close>

theorem setRadiusPx_lower_clamp_only:
  "radius_px (setRadiusPx v s) = max 1 v \<and>
   (wh_shift ev \<longrightarrow>
      1 \<le> radius_px (snd (wheelEvent E W ev s)) \<and>
      radius_px (snd (wheelEvent E W ev s)) \<le> 200)"
  by (auto simp: setRadiusPx_def wheelEvent_def updateVisuals_def Let_def
           split: option.splits sum.splits)

theorem setRadiusPx_lower_clamp_only_witness:
  "wh_shift \<lparr>wh_shift = True, wh_delta = 120, wh_point = None\<rparr> \<and>
   radius_px (setRadiusPx 500 (demo_tool True)) = 500 \<and>
   radius_px (snd (wheelEvent box_engine (demo_world {})
       \<lparr>wh_shift = True, wh_delta = 120, wh_point = None\<rparr>
       (setRadiusPx 500 (demo_tool True)))) = 200"
  using setRadiusPx_lower_clamp_only
          [of 500 "demo_tool True" "\<lparr>wh_shift = True, wh_delta = 120, wh_point = None\<rparr>"
              box_engine "demo_world {}"]
  by (simp add: setRadiusPx_def wheelEvent_def demo_tool_def init_tool_def)

section \<open>The render flag around the selection pass\<close>

lemma layer_loop_render_flag:
  "render_flag (snd (layer_loop body idxs acc W)) = render_flag W"
  by (induction idxs arbitrary: acc W) (auto split: sum.splits prod.splits)

lemma showMessage_render_flag: "render_flag (showMessage msg W) = render_flag W"
  by (simp add: showMessage_def split: option.splits)

text \<open>
  C2, as the specification states it: rendering is re-enabled on every path, also when a
  host call raises. When the feature request of the active layer raises, the exception
  leaves \<open>_select_features\<close> and the render flag stays off.
\<close>

theorem select_features_error_leaves_rendering_off:
  "\<not> render_flag (snd (select_features Polygon box_engine (demo_tool True)
        demo_corridor
        ((demo_world {1, 2})\<lparr>layers :=
           [(demo_layer {1, 2})\<lparr>getFeatures_exn := Some (Exception ''provider error'')\<rparr>]\<rparr>)))"
  by (simp add: select_features_def iter_target_layers_def demo_world_def demo_layer_def
      demo_tool_def init_tool_def eligible_def select_in_layer_def select_in_layer_poly_def
      getFeatures_def box_engine_def demo_corridor_def)

text \<open>
  C2, amended: every execution of the selection pass that returns normally (no host call
  of the layer loop raises; a failing status bar is swallowed) has re-enabled rendering
  when it returns.
\<close>

theorem select_features_reenables_rendering:
  "fst (select_features v E s geom W) = Inr () \<Longrightarrow>
   render_flag (snd (select_features v E s geom W))"
  by (auto simp: select_features_def Let_def showMessage_render_flag
           split: sum.splits prod.splits)

theorem select_features_reenables_rendering_witness:
  "fst (select_features Polygon box_engine (demo_tool True)
        demo_corridor
        ((demo_world {1, 2})\<lparr>statusbar_exn := Some (Exception ''no status bar'')\<rparr>)) = Inr () \<and>
   render_flag (snd (select_features Polygon box_engine (demo_tool True)
        demo_corridor
        ((demo_world {1, 2})\<lparr>statusbar_exn := Some (Exception ''no status bar'')\<rparr>)))"
proof -
  have ok: "fst (select_features Polygon box_engine (demo_tool True)
        demo_corridor
        ((demo_world {1, 2})\<lparr>statusbar_exn := Some (Exception ''no status bar'')\<rparr>)) = Inr ()"
    by (simp add: select_features_def iter_target_layers_def demo_world_def demo_layer_def
      demo_tool_def init_tool_def eligible_def select_in_layer_def select_in_layer_poly_def
      getFeatures_def box_engine_def demo_feature_def rect_intersects_def selectByIds_def
      showMessage_def demo_corridor_def)
  from ok select_features_reenables_rendering [OF ok] show ?thesis by simp
qed

section \<open>What the selection pass does to the layers\<close>

lemma layer_loop_layers:
  "distinct idxs \<Longrightarrow> \<forall>i\<in>set idxs. i < length (layers W) \<Longrightarrow>
   layer_loop body idxs acc W = (Inr acc', W') \<Longrightarrow>
   length (layers W') = length (layers W) \<and>
   (\<forall>i\<in>set idxs. \<exists>l' es n. body (layers W ! i) = Inr (l', es, n) \<and> layers W' ! i = l') \<and>
   (\<forall>i. i \<notin> set idxs \<longrightarrow> layers W' ! i = layers W ! i)"
proof (induction idxs arbitrary: acc W)
  case Nil
  then show ?case by simp
next
  case (Cons j rest)
  from Cons.prems(3) obtain l es n where b: "body (layers W ! j) = Inr (l, es, n)"
    and rec: "layer_loop body rest (fst acc @ es, snd acc + n)
                (W\<lparr>layers := (layers W)[j := l]\<rparr>) = (Inr acc', W')"
    by (auto split: sum.splits prod.splits)
  let ?W1 = "W\<lparr>layers := (layers W)[j := l]\<rparr>"
  have d: "distinct rest" and jn: "j \<notin> set rest" and jl: "j < length (layers W)"
    using Cons.prems(1,2) by auto
  have bound: "\<forall>i\<in>set rest. i < length (layers ?W1)"
    using Cons.prems(2) by simp
  note ih = Cons.IH [OF d bound rec]
  have len: "length (layers W') = length (layers W)"
    using ih by simp
  have other: "\<forall>i. i \<notin> set (j # rest) \<longrightarrow> layers W' ! i = layers W ! i"
    using ih by auto
  have atj: "layers W' ! j = l"
    using ih jn jl by auto
  have inrest: "\<forall>i\<in>set rest. \<exists>l' es n. body (layers W ! i) = Inr (l', es, n) \<and> layers W' ! i = l'"
  proof
    fix i assume i: "i \<in> set rest"
    then have "i \<noteq> j" using jn by auto
    then have "layers ?W1 ! i = layers W ! i" by simp
    with ih i show "\<exists>l' es n. body (layers W ! i) = Inr (l', es, n) \<and> layers W' ! i = l'"
      by fastforce
  qed
  show ?case using len other atj inrest b by auto
qed

lemma iter_target_layers_render_flag:
  "iter_target_layers v s (W\<lparr>render_flag := b\<rparr>) = iter_target_layers v s W"
  by (simp add: iter_target_layers_def split: option.splits)

lemma iter_target_layers_distinct:
  "iter_target_layers v s W = Inr idxs \<Longrightarrow>
   distinct idxs \<and> (\<forall>i\<in>set idxs. i < length (layers W) \<and> eligible v (layers W ! i))"
  by (auto simp: iter_target_layers_def split: option.splits if_splits)

lemma showMessage_layers: "layers (showMessage msg W) = layers W"
  by (simp add: showMessage_def split: option.splits)

text \<open>
  A pass that returns has run the loop body once on every target layer and has left
  the other layers alone.
\<close>

lemma select_features_layers:
  assumes run: "select_features v E s geom W = (Inr (), W')"
    and tgt: "iter_target_layers v s W = Inr idxs"
  shows "(\<forall>i\<in>set idxs. \<exists>l' es n.
            select_in_layer v E s geom (boundingBox E geom) (layers W ! i) = Inr (l', es, n) \<and>
            layers W' ! i = l') \<and>
         (\<forall>i. i \<notin> set idxs \<longrightarrow> layers W' ! i = layers W ! i)"
proof -
  let ?W1 = "W\<lparr>render_flag := False\<rparr>"
  let ?body = "select_in_layer v E s geom (boundingBox E geom)"
  from run tgt obtain acc W2 where
    loop: "layer_loop ?body idxs ([], 0) ?W1 = (Inr acc, W2)" and
    lay: "layers W' = layers W2"
    by (auto simp: select_features_def Let_def iter_target_layers_render_flag showMessage_layers
             split: sum.splits prod.splits)
  from iter_target_layers_distinct [OF tgt]
  have d: "distinct idxs" and b: "\<forall>i\<in>set idxs. i < length (layers ?W1)"
    by auto
  from layer_loop_layers [OF d b loop] lay show ?thesis
    by simp
qed

section \<open>The merge policy\<close>





section \<open>A pass that matches nothing, under the replace policy\<close>

lemma exact_ids_empty_rend:
  "exact_ids E geom fs = [] \<Longrightarrow> match_ids_rend E geom fs ids = Inr ids"
  by (induction fs arbitrary: ids) (auto simp: exact_ids_def split: if_splits)

text \<open>
  The \<open>Renderer\<close> variant clears: under the replace policy, a target layer on which no
  feature intersects the corridor has an empty selection after the pass.
\<close>

lemma zero_match_replace_clears_rend:
  assumes repl: "\<not> add_to_selection s" "\<not> shift_pressed s"
    and run: "select_features Renderer E s geom W = (Inr (), W')"
    and tgt: "iter_target_layers Renderer s W = Inr idxs"
    and i: "i \<in> set idxs"
    and fs: "getFeatures E (layers W ! i) (boundingBox E geom) = Inr fs"
    and none: "exact_ids E geom fs = []"
  shows "selected (layers W' ! i) = {}"
proof -
  from select_features_layers [OF run tgt] i obtain es n where
    body: "select_in_layer_rend E s geom (boundingBox E geom) (layers W ! i)
       = Inr (layers W' ! i, es, n)"
    by (auto simp: select_in_layer_def)
  from exact_ids_empty_rend [OF none] have "match_ids_rend E geom fs [] = Inr []" .
  with body fs repl have "layers W' ! i = (layers W ! i)\<lparr>selected := {}\<rparr>"
    by (auto simp: select_in_layer_rend_def removeSelection_def should_add_def
             split: option.splits)
  then show ?thesis
    by simp
qed

text \<open>
  C1 at the failing input: the \<open>Polygon\<close> variant, \<open>add_to_selection\<close> off, the active
  layer with the selection \<open>{1, 2}\<close>, a click at \<open>(50, 50)\<close> where no feature lies. The
  release handler runs the selection pass, which reports zero features and leaves the
  layer as it was: the selection is still \<open>{1, 2}\<close>.
\<close>

theorem zero_match_replace_keeps_selection_poly:
  "canvasReleaseEvent Polygon box_engine (demo_world {1, 2}) (left_at (50, 50))
       (snd (canvasPressEvent Polygon box_engine (demo_world {1, 2}) (left_at (50, 50))
              (demo_tool False)))
   = (Inr (), (demo_tool False)\<lparr>cursor_rb := Some far_corridor\<rparr>,
      (demo_world {1, 2})\<lparr>status := Some ZeroMsg\<rparr>)"
  by (simp add: run_simps demo_simps)

theorem zero_match_replace_keeps_selection_poly_witness:
  "selected (layers (snd (snd
      (canvasReleaseEvent Polygon box_engine (demo_world {1, 2}) (left_at (50, 50))
         (snd (canvasPressEvent Polygon box_engine (demo_world {1, 2}) (left_at (50, 50))
                (demo_tool False)))))) ! 0) = {1, 2}"
  using zero_match_replace_keeps_selection_poly
  by (simp add: demo_world_def demo_layer_def)

section \<open>The bounding-box prefilter\<close>








section \<open>The corridor builder and the release handler\<close>

text \<open>
  C8: the corridor builder never raises to its caller: every call returns. For an empty
  point list it returns \<open>None\<close>; when the chain of host calls it makes raises (the point
  buffer for one point, the polyline buffer for two or more) it returns \<open>None\<close>. When
  the builder's result at a left-button release is \<open>None\<close>, null or empty, the release
  handler returns normally, runs no selection pass and shows no message: the host's
  state is unchanged, and the stroke is reset.
\<close>

theorem corridor_builder_never_raises:
  "(\<exists>r. build_stroke_geometry E points radius segs = Inr r) \<and>
   build_stroke_geometry E [] radius segs = Inr None \<and>
   (length points = 1 \<and> point_buffer E (points ! 0) radius (max 8 segs) = Inl e \<longrightarrow>
      build_stroke_geometry E points radius segs = Inr None) \<and>
   (2 \<le> length points \<and> polyline_buffer E points radius (max 8 segs) = Inl e \<longrightarrow>
      build_stroke_geometry E points radius segs = Inr None) \<and>
   (ev_button ev = LeftButton \<and> dragging s \<and>
    build_stroke_geometry E (path_points (finalize_stroke (mupp W) (ev_point ev) s))
      (radius_mu (mupp W) (finalize_stroke (mupp W) (ev_point ev) s))
      (segments (finalize_stroke (mupp W) (ev_point ev) s)) = Inr r \<and>
    \<not> usable E r \<longrightarrow>
      canvasReleaseEvent v E W ev s =
        (Inr (),
         (finalize_stroke (mupp W) (ev_point ev) s)
           \<lparr>path_points := [], last_added := None, stroke_rb := None\<rparr>,
         W))"
proof (intro conjI impI)
  show "\<exists>r. build_stroke_geometry E points radius segs = Inr r"
    by (simp add: build_stroke_geometry_def split: sum.splits)
  show "build_stroke_geometry E [] radius segs = Inr None"
    by (simp add: build_stroke_geometry_def)
  show "build_stroke_geometry E points radius segs = Inr None"
    if "length points = 1 \<and> point_buffer E (points ! 0) radius (max 8 segs) = Inl e"
    using that by (auto simp: build_stroke_geometry_def)
  show "build_stroke_geometry E points radius segs = Inr None"
    if "2 \<le> length points \<and> polyline_buffer E points radius (max 8 segs) = Inl e"
    using that by (auto simp: build_stroke_geometry_def)
  show "canvasReleaseEvent v E W ev s =
        (Inr (),
         (finalize_stroke (mupp W) (ev_point ev) s)
           \<lparr>path_points := [], last_added := None, stroke_rb := None\<rparr>,
         W)"
    if "ev_button ev = LeftButton \<and> dragging s \<and>
    build_stroke_geometry E (path_points (finalize_stroke (mupp W) (ev_point ev) s))
      (radius_mu (mupp W) (finalize_stroke (mupp W) (ev_point ev) s))
      (segments (finalize_stroke (mupp W) (ev_point ev) s)) = Inr r \<and>
    \<not> usable E r"
    using that by (auto simp: canvasReleaseEvent_def Let_def split: option.splits)
qed

theorem corridor_builder_never_raises_witness:
  "ev_button (left_at (0, 0)) = LeftButton \<and>
   dragging (snd (canvasPressEvent Polygon strict_engine (demo_world {1, 2}) (left_at (0, 0))
                   (demo_tool True))) \<and>
   polyline_buffer strict_engine [(0, 0), (0, 0)] 20 8 = Inl (Exception ''zero-length line'') \<and>
   build_stroke_geometry strict_engine [(0, 0), (0, 0)] 20 8 = Inr None \<and>
   \<not> usable strict_engine None \<and>
   canvasReleaseEvent Polygon strict_engine (demo_world {1, 2}) (left_at (0, 0))
     (snd (canvasPressEvent Polygon strict_engine (demo_world {1, 2}) (left_at (0, 0))
            (demo_tool True)))
   = (Inr (),
      (demo_tool True)\<lparr>cursor_rb :=
         Some (Some \<lparr>xMinimum = - 20, yMinimum = - 20, xMaximum = 20, yMaximum = 20\<rparr>)\<rparr>,
      demo_world {1, 2})"
  using corridor_builder_never_raises [of strict_engine "[(0, 0), (0, 0)]" 20 8 "Exception ''zero-length line''"
              "left_at (0, 0)"
              "snd (canvasPressEvent Polygon strict_engine (demo_world {1, 2}) (left_at (0, 0))
                     (demo_tool True))"
              "demo_world {1, 2}" None Polygon]
  by (simp add: run_simps demo_simps)

section \<open>The spacing of the stroke's points\<close>

lemma far_enough:
  assumes "(2 * m) * (2 * m) \<le> dist_sq p q"
  shows "2 * m \<le> euclid p q"
proof -
  have "sqrt ((2 * m) * (2 * m)) \<le> sqrt (dist_sq p q)"
    using assms by (rule real_sqrt_le_mono)
  moreover have "sqrt ((2 * m) * (2 * m)) = \<bar>2 * m\<bar>"
    by (rule real_sqrt_abs2)
  ultimately have "\<bar>2 * m\<bar> \<le> euclid p q"
    unfolding euclid_def by (rule subst [rotated])
  then show ?thesis by linarith
qed

lemma extends_spaced:
  "last_added s = Some q \<Longrightarrow>
   \<exists>ks. subseq ks evs \<and> path_points (extends evs s) = path_points s @ map fst ks \<and>
         spaced q ks"
proof (induction evs arbitrary: s q)
  case Nil
  then show ?case by simp
next
  case (Cons pm rest)
  let ?s' = "append_point_if_far (snd pm) (fst pm) False s"
  show ?case
  proof (cases "(2 * snd pm) * (2 * snd pm) \<le> dist_sq (fst pm) q")
    case True
    then have s': "?s' = s\<lparr>path_points := path_points s @ [fst pm], last_added := Some (fst pm)\<rparr>"
      using Cons.prems by (simp add: append_point_if_far_def Let_def)
    then have la: "last_added ?s' = Some (fst pm)" by simp
    from Cons.IH [OF la] obtain ks where
      ks: "subseq ks rest" "path_points (extends rest ?s') = path_points ?s' @ map fst ks"
          "spaced (fst pm) ks"
      by blast
    have "subseq (pm # ks) (pm # rest)" using ks(1) by simp
    moreover have "path_points (extends (pm # rest) s) = path_points s @ map fst (pm # ks)"
      using ks(2) s' by simp
    moreover have "spaced q (pm # ks)"
      using ks(3) far_enough [OF True] by simp
    ultimately show ?thesis by blast
  next
    case False
    then have s': "?s' = s"
      using Cons.prems by (simp add: append_point_if_far_def Let_def)
    from Cons.IH [of s q] Cons.prems obtain ks where
      ks: "subseq ks rest" "path_points (extends rest s) = path_points s @ map fst ks"
          "spaced q ks"
      by blast
    have "subseq ks (pm # rest)" using ks(1) by (rule list_emb_Cons)
    then show ?thesis using ks s' by auto
  qed
qed

text \<open>
  C6: a gesture is a begin (the stroke becomes the press point \<open>p0\<close>), a run \<open>evs\<close> of
  samples without force, each with the map units per pixel at its time, and an end (the
  release point \<open>pe\<close>, forced). The stroke is then \<open>p0\<close>, the points of some of the
  samples in their order, and \<open>pe\<close>; every kept sample lies at a Euclidean distance of
  at least 2 pixels, in the map units of its own time, from the point before it. The
  first and the last point are there whatever their spacing. A sample whose squared
  distance from the last added point is below the squared threshold leaves the tool
  unchanged.
\<close>

theorem stroke_points_spaced:
  "(\<exists>ks. subseq ks evs \<and>
      path_points (append_point_if_far me pe True (extends evs (begin_stroke m0 p0 s)))
        = p0 # map fst ks @ [pe] \<and>
      spaced p0 ks) \<and>
   (last_added s = Some q \<and> dist_sq p q < (2 * m) * (2 * m) \<longrightarrow>
      append_point_if_far m p False s = s)"
proof
  have la: "last_added (begin_stroke m0 p0 s) = Some p0"
    and pp: "path_points (begin_stroke m0 p0 s) = [p0]"
    by (simp_all add: begin_stroke_def append_point_if_far_def)
  from extends_spaced [OF la, of evs] obtain ks where
    ks: "subseq ks evs"
        "path_points (extends evs (begin_stroke m0 p0 s)) = [p0] @ map fst ks"
        "spaced p0 ks"
    using pp by auto
  have "path_points (append_point_if_far me pe True t) = path_points t @ [pe]" for t :: "'a tool"
    by (simp add: append_point_if_far_def split: option.splits)
  with ks show "\<exists>ks. subseq ks evs \<and>
      path_points (append_point_if_far me pe True (extends evs (begin_stroke m0 p0 s)))
        = p0 # map fst ks @ [pe] \<and> spaced p0 ks"
    by auto
  show "last_added s = Some q \<and> dist_sq p q < (2 * m) * (2 * m) \<longrightarrow>
      append_point_if_far m p False s = s"
    by (simp add: append_point_if_far_def Let_def)
qed

theorem stroke_points_spaced_witness:
  "(\<exists>ks. subseq ks [((1, 0), 1), ((5, 0), 1), ((10, 0), 1)] \<and>
      path_points (append_point_if_far 1 (10, 0) True
         (extends [((1, 0), 1), ((5, 0), 1), ((10, 0), 1)]
            (begin_stroke 1 (0, 0) (demo_tool True))))
        = (0, 0) # map fst ks @ [(10, 0)] \<and>
      spaced (0, 0) ks) \<and>
   path_points (append_point_if_far 1 (10, 0) True
         (extends [((1, 0), 1), ((5, 0), 1), ((10, 0), 1)]
            (begin_stroke 1 (0, 0) (demo_tool True))))
     = [(0, 0), (5, 0), (10, 0), (10, 0)] \<and>
   last_added (begin_stroke 1 (0, 0) (demo_tool True)) = Some (0, 0) \<and>
   dist_sq (1, 0) (0, 0) < (2 * 1) * (2 * 1) \<and>
   append_point_if_far 1 (1, 0) False (begin_stroke 1 (0, 0) (demo_tool True))
     = begin_stroke 1 (0, 0) (demo_tool True)"
  using stroke_points_spaced [of "[((1, 0), 1), ((5, 0), 1), ((10, 0), 1)]" 1 "(10, 0)" 1 "(0, 0)"
               "demo_tool True", of "(0, 0)" "(1, 0)" 1]
  by (simp add: run_simps demo_simps)

section \<open>What the handlers keep\<close>

lemma updateVisuals_keeps:
  "path_points (snd (updateVisuals E m p s)) = path_points s"
  "last_added (snd (updateVisuals E m p s)) = last_added s"
  "dragging (snd (updateVisuals E m p s)) = dragging s"
  "radius_px (snd (updateVisuals E m p s)) = radius_px s"
  "segments (snd (updateVisuals E m p s)) = segments s"
  by (simp_all add: updateVisuals_def split: sum.splits)

lemma updateStrokeRubberBand_keeps:
  "path_points (snd (updateStrokeRubberBand E m s)) = path_points s"
  "last_added (snd (updateStrokeRubberBand E m s)) = last_added s"
  "dragging (snd (updateStrokeRubberBand E m s)) = dragging s"
  "radius_px (snd (updateStrokeRubberBand E m s)) = radius_px s"
  "segments (snd (updateStrokeRubberBand E m s)) = segments s"
  by (simp_all add: updateStrokeRubberBand_def split: sum.splits)

lemma append_point_if_far_keeps:
  "dragging (append_point_if_far m p f s) = dragging s"
  "radius_px (append_point_if_far m p f s) = radius_px s"
  "segments (append_point_if_far m p f s) = segments s"
  by (simp_all add: append_point_if_far_def Let_def split: option.splits)

lemma append_point_if_far_path:
  "path_points (append_point_if_far m p f s) = path_points s \<or>
   path_points (append_point_if_far m p f s) = path_points s @ [p]"
  by (simp add: append_point_if_far_def Let_def split: option.splits)

lemma append_point_if_far_forced:
  "path_points (append_point_if_far m p True s) = path_points s @ [p]"
  "last_added (append_point_if_far m p True s) = Some p"
  by (simp_all add: append_point_if_far_def split: option.splits)

lemma press_left:
  assumes "ev_button ev = LeftButton"
  shows "path_points (snd (canvasPressEvent v E W ev s)) = [ev_point ev]"
    and "last_added (snd (canvasPressEvent v E W ev s)) = Some (ev_point ev)"
    and "dragging (snd (canvasPressEvent v E W ev s))"
    and "radius_px (snd (canvasPressEvent v E W ev s)) = radius_px s"
    and "segments (snd (canvasPressEvent v E W ev s)) = segments s"
  using assms
  by (simp_all add: canvasPressEvent_def Let_def updateVisuals_keeps begin_stroke_def
        append_point_if_far_forced append_point_if_far_keeps split: variant.splits)

lemma canvasMoveEvent_snd:
  "snd (canvasMoveEvent E W ev s) =
     (let s1 = snd (updateVisuals E (mupp W) (ev_point ev) s) in
      case fst (updateVisuals E (mupp W) (ev_point ev) s) of
        Inl e \<Rightarrow> s1
      | Inr u \<Rightarrow>
          if \<not> dragging s1 \<or> \<not> ev_left_held ev then s1
          else snd (updateStrokeRubberBand E (mupp W)
                      (append_point_if_far (mupp W) (ev_point ev) False s1)))"
  by (simp add: canvasMoveEvent_def Let_def split: prod.splits sum.splits)

lemma move_path:
  "\<exists>mid. path_points (snd (canvasMoveEvent E W ev s)) = path_points s @ mid"
proof -
  have "path_points (snd (canvasMoveEvent E W ev s)) = path_points s \<or>
        path_points (snd (canvasMoveEvent E W ev s)) = path_points s @ [ev_point ev]"
    using append_point_if_far_path
            [of "mupp W" "ev_point ev" False "snd (updateVisuals E (mupp W) (ev_point ev) s)"]
    by (auto simp: canvasMoveEvent_snd Let_def updateStrokeRubberBand_keeps updateVisuals_keeps
             split: sum.splits)
  then show ?thesis by auto
qed

lemma move_dragging: "dragging (snd (canvasMoveEvent E W ev s)) = dragging s"
  by (simp add: canvasMoveEvent_snd Let_def updateStrokeRubberBand_keeps updateVisuals_keeps
        append_point_if_far_keeps split: sum.splits)

lemma drag_moves_path:
  "(\<exists>mid. path_points (drag_moves E evs s) = path_points s @ mid) \<and>
   dragging (drag_moves E evs s) = dragging s"
proof (induction evs arbitrary: s)
  case Nil
  then show ?case by simp
next
  case (Cons we rest)
  let ?s1 = "snd (canvasMoveEvent E (fst we) (snd we) s)"
  from move_path [of E "fst we" "snd we" s] obtain m1 where
    m1: "path_points ?s1 = path_points s @ m1" by blast
  from Cons.IH [of ?s1] obtain m2 where
    m2: "path_points (drag_moves E rest ?s1) = path_points ?s1 @ m2"
    and d: "dragging (drag_moves E rest ?s1) = dragging ?s1" by blast
  show ?case using m1 m2 d by (simp add: move_dragging)
qed

lemma release_not_dragging:
  "ev_button ev = LeftButton \<Longrightarrow> dragging s \<Longrightarrow>
   \<not> dragging (fst (snd (canvasReleaseEvent v E W ev s)))"
  by (auto simp: canvasReleaseEvent_def Let_def finalize_stroke_def append_point_if_far_keeps
           split: sum.splits prod.splits option.splits)

lemma release_ignored:
  "ev_button ev \<noteq> LeftButton \<or> \<not> dragging s \<Longrightarrow>
   fst (snd (canvasReleaseEvent v E W ev s)) = s"
  by (auto simp: canvasReleaseEvent_def)

lemma wheel_keeps:
  "path_points (snd (wheelEvent E W ev s)) = path_points s"
  "dragging (snd (wheelEvent E W ev s)) = dragging s"
  by (simp_all add: wheelEvent_def Let_def setRadiusPx_def updateVisuals_keeps
        split: option.splits)

lemma step_keeps_stroke_nonempty:
  assumes inv: "dragging s \<longrightarrow> path_points s \<noteq> []"
  shows "dragging (step v E W ev s) \<longrightarrow> path_points (step v E W ev s) \<noteq> []"
proof (cases ev)
  case (Press me)
  show ?thesis
  proof (cases "ev_button me = LeftButton")
    case True
    then show ?thesis using Press by (simp add: step_def press_left)
  next
    case False
    then show ?thesis using Press inv by (simp add: step_def canvasPressEvent_def)
  qed
next
  case (Move me)
  from move_path [of E W me s] obtain mid where
    "path_points (snd (canvasMoveEvent E W me s)) = path_points s @ mid" by blast
  then show ?thesis using Move inv by (simp add: step_def move_dragging)
next
  case (Release me)
  show ?thesis
  proof (cases "ev_button me = LeftButton \<and> dragging s")
    case True
    then show ?thesis using Release release_not_dragging [of me s v E W]
      by (simp add: step_def)
  next
    case False
    then have "fst (snd (canvasReleaseEvent v E W me s)) = s"
      by (intro release_ignored) auto
    then show ?thesis using Release inv by (simp add: step_def)
  qed
next
  case (Wheel we)
  then show ?thesis using inv by (simp add: step_def wheel_keeps split: variant.splits)
next
  case (KeyPress k)
  then show ?thesis using inv
    by (simp add: step_def keyPressEvent_def split: variant.splits)
next
  case (KeyRelease k)
  then show ?thesis using inv
    by (simp add: step_def keyReleaseEvent_def split: variant.splits)
next
  case Deactivate
  then show ?thesis using inv by (simp add: step_def deactivate_def)
next
  case (SetRadius r)
  then show ?thesis using inv by (simp add: step_def setRadiusPx_def)
next
  case (SetActiveOnly b)
  then show ?thesis using inv by (simp add: step_def setActiveLayerOnly_def)
next
  case (SetAddTo b)
  then show ?thesis using inv by (simp add: step_def setAddToSelection_def)
qed

lemma reachable_stroke_nonempty:
  "reachable v E s \<Longrightarrow> dragging s \<longrightarrow> path_points s \<noteq> []"
proof (induction rule: reachable.induct)
  case (reachable_init r n add_sel active_only)
  show ?case by (simp add: init_tool_def)
next
  case (reachable_step s W ev)
  from reachable_step.IH show ?case by (rule step_keeps_stroke_nonempty)
qed

lemma build_two_or_more:
  "2 \<le> length points \<Longrightarrow>
   build_stroke_geometry E points r n =
     (case polyline_buffer E points r (max 8 n) of Inl e \<Rightarrow> Inr None | Inr g \<Rightarrow> Inr (Some g))"
  by (auto simp: build_stroke_geometry_def)

lemma release_by_polyline_eq:
  assumes l: "ev_button ev = LeftButton" and d: "dragging s" and ne: "path_points s \<noteq> []"
  shows "canvasReleaseEvent v E W ev s = release_by_polyline v E W ev s"
proof -
  let ?s1 = "finalize_stroke (mupp W) (ev_point ev) s"
  have pp: "path_points ?s1 = path_points s @ [ev_point ev]"
    by (simp add: finalize_stroke_def append_point_if_far_forced)
  from ne have "1 \<le> length (path_points s)"
    by (cases "path_points s") simp_all
  with pp have "2 \<le> length (path_points ?s1)"
    by simp
  then have b: "build_stroke_geometry E (path_points ?s1) (radius_mu (mupp W) ?s1) (segments ?s1)
      = (case polyline_buffer E (path_points ?s1) (radius_mu (mupp W) ?s1) (max 8 (segments ?s1)) of
           Inl e \<Rightarrow> Inr None | Inr g \<Rightarrow> Inr (Some g))"
    by (rule build_two_or_more)
  show ?thesis
    using l d b
    by (simp add: canvasReleaseEvent_def release_by_polyline_def Let_def split: sum.splits)
qed

text \<open>
  C10: in every tool state that a sequence of events can produce, a left-button release
  during a drag does what \<open>release_by_polyline\<close> does: \<open>canvasReleaseEvent\<close> hands the
  finalized stroke, with the radius in map units and at least 8 segments, to the polyline
  buffer, and never takes the builder's single-point branch; that stroke has at least two
  points, the last of them the release point. For a gesture that starts with a
  left-button press and goes on with any move events, the same holds at the release, and
  the finalized stroke is the press point, the sampled points and the release point; with
  no move at all it is the press point and the release point, two points even when they
  coincide.
\<close>

theorem release_stroke_has_two_points:
  "(reachable v E s \<and> ev_button ev = LeftButton \<and> dragging s \<longrightarrow>
      canvasReleaseEvent v E W ev s = release_by_polyline v E W ev s \<and>
      2 \<le> length (path_points (finalize_stroke (mupp W) (ev_point ev) s)) \<and>
      last (path_points (finalize_stroke (mupp W) (ev_point ev) s)) = ev_point ev) \<and>
   (ev_button ev0 = LeftButton \<and> ev_button ev = LeftButton \<longrightarrow>
      canvasReleaseEvent v E W ev (drag_moves E evs (snd (canvasPressEvent v E W0 ev0 s0)))
        = release_by_polyline v E W ev (drag_moves E evs (snd (canvasPressEvent v E W0 ev0 s0))) \<and>
      (\<exists>mid. path_points (finalize_stroke (mupp W) (ev_point ev)
                 (drag_moves E evs (snd (canvasPressEvent v E W0 ev0 s0))))
               = ev_point ev0 # mid @ [ev_point ev]) \<and>
      canvasReleaseEvent v E W ev (snd (canvasPressEvent v E W0 ev0 s0))
        = release_by_polyline v E W ev (snd (canvasPressEvent v E W0 ev0 s0)) \<and>
      path_points (finalize_stroke (mupp W) (ev_point ev) (snd (canvasPressEvent v E W0 ev0 s0)))
        = [ev_point ev0, ev_point ev])"
proof (intro conjI impI)
  assume a: "reachable v E s \<and> ev_button ev = LeftButton \<and> dragging s"
  then have ne: "path_points s \<noteq> []"
    using reachable_stroke_nonempty by blast
  from a ne show "canvasReleaseEvent v E W ev s = release_by_polyline v E W ev s"
    by (intro release_by_polyline_eq) simp_all
  have pp: "path_points (finalize_stroke (mupp W) (ev_point ev) s) = path_points s @ [ev_point ev]"
    by (simp add: finalize_stroke_def append_point_if_far_forced)
  from ne have "1 \<le> length (path_points s)"
    by (cases "path_points s") simp_all
  with pp show "2 \<le> length (path_points (finalize_stroke (mupp W) (ev_point ev) s))"
    by simp
  from pp show "last (path_points (finalize_stroke (mupp W) (ev_point ev) s)) = ev_point ev"
    by simp
next
  assume b: "ev_button ev0 = LeftButton \<and> ev_button ev = LeftButton"
  then have l0: "ev_button ev0 = LeftButton" and l: "ev_button ev = LeftButton"
    by simp_all
  let ?s1 = "snd (canvasPressEvent v E W0 ev0 s0)"
  let ?s2 = "drag_moves E evs ?s1"
  from drag_moves_path [of E evs ?s1] obtain mid where
    mid: "path_points ?s2 = path_points ?s1 @ mid"
    and d: "dragging ?s2 = dragging ?s1" by blast
  have d2: "dragging ?s2"
    using d press_left(3) [OF l0] by simp
  have p2: "path_points ?s2 = ev_point ev0 # mid"
    using mid press_left(1) [OF l0] by simp
  then have ne2: "path_points ?s2 \<noteq> []"
    by simp
  show "canvasReleaseEvent v E W ev ?s2 = release_by_polyline v E W ev ?s2"
    using l d2 ne2 by (rule release_by_polyline_eq)
  have "path_points (finalize_stroke (mupp W) (ev_point ev) ?s2) = ev_point ev0 # mid @ [ev_point ev]"
    using p2 by (simp add: finalize_stroke_def append_point_if_far_forced)
  then show "\<exists>mid. path_points (finalize_stroke (mupp W) (ev_point ev) ?s2)
               = ev_point ev0 # mid @ [ev_point ev]"
    by blast
  have ne1: "path_points ?s1 \<noteq> []"
    by (simp add: press_left(1) [OF l0])
  show "canvasReleaseEvent v E W ev ?s1 = release_by_polyline v E W ev ?s1"
    using l press_left(3) [OF l0] ne1 by (rule release_by_polyline_eq)
  show "path_points (finalize_stroke (mupp W) (ev_point ev) ?s1) = [ev_point ev0, ev_point ev]"
    using press_left(1) [OF l0]
    by (simp add: finalize_stroke_def append_point_if_far_forced)
qed

theorem release_stroke_has_two_points_witness:
  "reachable Polygon box_engine
     (snd (canvasPressEvent Polygon box_engine (demo_world {1, 2}) (left_at (0, 0))
            (demo_tool False))) \<and>
   ev_button (left_at (0, 0)) = LeftButton \<and>
   dragging (snd (canvasPressEvent Polygon box_engine (demo_world {1, 2}) (left_at (0, 0))
                   (demo_tool False))) \<and>
   path_points (finalize_stroke (mupp (demo_world {1, 2})) (ev_point (left_at (0, 0)))
      (snd (canvasPressEvent Polygon box_engine (demo_world {1, 2}) (left_at (0, 0))
             (demo_tool False)))) = [(0, 0), (0, 0)] \<and>
   polyline_buffer box_engine [(0, 0), (0, 0)] 20 8
     = Inr (Some \<lparr>xMinimum = - 20, yMinimum = - 20, xMaximum = 20, yMaximum = 20\<rparr>) \<and>
   canvasReleaseEvent Polygon box_engine (demo_world {1, 2}) (left_at (0, 0))
     (snd (canvasPressEvent Polygon box_engine (demo_world {1, 2}) (left_at (0, 0))
            (demo_tool False)))
     = release_by_polyline Polygon box_engine (demo_world {1, 2}) (left_at (0, 0))
         (snd (canvasPressEvent Polygon box_engine (demo_world {1, 2}) (left_at (0, 0))
                (demo_tool False))) \<and>
   selected (layers (snd (snd
      (canvasReleaseEvent Polygon box_engine (demo_world {1, 2}) (left_at (0, 0))
         (snd (canvasPressEvent Polygon box_engine (demo_world {1, 2}) (left_at (0, 0))
                (demo_tool False)))))) ! 0) = {3, 4}"
proof -
  let ?W = "demo_world {1, 2}"
  let ?s = "snd (canvasPressEvent Polygon box_engine ?W (left_at (0, 0)) (demo_tool False))"
  have "reachable Polygon box_engine
          (step Polygon box_engine ?W (Press (left_at (0, 0))) (init_tool 20 8 False True))"
    by (rule reachable_step [OF reachable_init])
  then have re: "reachable Polygon box_engine ?s"
    by (simp add: step_def demo_tool_def)
  have l: "ev_button (left_at (0, 0)) = LeftButton"
    by (simp add: left_at_def)
  have d: "dragging ?s"
    by (simp add: run_simps demo_simps)
  have pp: "path_points (finalize_stroke (mupp ?W) (ev_point (left_at (0, 0))) ?s)
      = [(0, 0), (0, 0)]"
    by (simp add: run_simps demo_simps)
  have pb: "polyline_buffer box_engine [(0, 0), (0, 0)] 20 8
     = Inr (Some \<lparr>xMinimum = - 20, yMinimum = - 20, xMaximum = 20, yMaximum = 20\<rparr>)"
    by (simp add: run_simps demo_simps)
  have sel: "selected (layers (snd (snd
      (release_by_polyline Polygon box_engine ?W (left_at (0, 0)) ?s))) ! 0) = {3, 4}"
    by (simp add: release_by_polyline_def run_simps demo_simps)
  from release_stroke_has_two_points [of Polygon box_engine ?s "left_at (0, 0)" ?W] re l d pp pb sel
  show ?thesis by simp
qed

section \<open>Two runs of the same gesture\<close>

lemma build_never_raises:
  "\<exists>r. build_stroke_geometry E points radius segs = Inr r"
  by (simp add: build_stroke_geometry_def split: sum.splits)

lemma updateVisuals_outcome:
  "radius_px a = radius_px b \<Longrightarrow> segments a = segments b \<Longrightarrow>
   fst (updateVisuals E m p a) = fst (updateVisuals E m p b)"
  by (simp add: updateVisuals_def radius_mu_def split: sum.splits)

lemma append_point_if_far_agree:
  "path_points a = path_points b \<Longrightarrow> last_added a = last_added b \<Longrightarrow>
   path_points (append_point_if_far m p f a) = path_points (append_point_if_far m p f b) \<and>
   last_added (append_point_if_far m p f a) = last_added (append_point_if_far m p f b)"
  by (simp add: append_point_if_far_def Let_def split: option.splits)

lemma move_agree:
  assumes "path_points a = path_points b" "last_added a = last_added b"
    "dragging a = dragging b" "radius_px a = radius_px b" "segments a = segments b"
  shows "path_points (snd (canvasMoveEvent E W ev a)) = path_points (snd (canvasMoveEvent E W ev b)) \<and>
         last_added (snd (canvasMoveEvent E W ev a)) = last_added (snd (canvasMoveEvent E W ev b)) \<and>
         dragging (snd (canvasMoveEvent E W ev a)) = dragging (snd (canvasMoveEvent E W ev b)) \<and>
         radius_px (snd (canvasMoveEvent E W ev a)) = radius_px (snd (canvasMoveEvent E W ev b)) \<and>
         segments (snd (canvasMoveEvent E W ev a)) = segments (snd (canvasMoveEvent E W ev b))"
proof -
  let ?a1 = "snd (updateVisuals E (mupp W) (ev_point ev) a)"
  let ?b1 = "snd (updateVisuals E (mupp W) (ev_point ev) b)"
  have o: "fst (updateVisuals E (mupp W) (ev_point ev) a) = fst (updateVisuals E (mupp W) (ev_point ev) b)"
    using assms by (intro updateVisuals_outcome)
  have p1: "path_points ?a1 = path_points ?b1" and l1: "last_added ?a1 = last_added ?b1"
    using assms by (simp_all add: updateVisuals_keeps)
  note ag = append_point_if_far_agree [OF p1 l1, of "mupp W" "ev_point ev" False]
  show ?thesis
    using assms o ag
    by (auto simp: canvasMoveEvent_snd Let_def updateStrokeRubberBand_keeps updateVisuals_keeps
          append_point_if_far_keeps split: sum.splits)
qed

lemma drag_moves_agree:
  "path_points a = path_points b \<Longrightarrow> last_added a = last_added b \<Longrightarrow>
   dragging a = dragging b \<Longrightarrow> radius_px a = radius_px b \<Longrightarrow> segments a = segments b \<Longrightarrow>
   path_points (drag_moves E evs a) = path_points (drag_moves E evs b)"
proof (induction evs arbitrary: a b)
  case Nil
  then show ?case by simp
next
  case (Cons we rest)
  let ?a1 = "snd (canvasMoveEvent E (fst we) (snd we) a)"
  let ?b1 = "snd (canvasMoveEvent E (fst we) (snd we) b)"
  from move_agree [OF Cons.prems, of E "fst we" "snd we"]
  have "path_points ?a1 = path_points ?b1" "last_added ?a1 = last_added ?b1"
    "dragging ?a1 = dragging ?b1" "radius_px ?a1 = radius_px ?b1" "segments ?a1 = segments ?b1"
    by simp_all
  then have "path_points (drag_moves E rest ?a1) = path_points (drag_moves E rest ?b1)"
    by (rule Cons.IH)
  then show ?case by simp
qed

lemma preview_shows:
  assumes ne: "path_points t \<noteq> []"
    and shown: "stroke_rb (snd (updateStrokeRubberBand E m (t\<lparr>stroke_rb := None\<rparr>))) = Some g"
  shows "build_stroke_geometry E (path_points t) (radius_mu m t) (segments t) = Inr (Some g) \<and>
         usable E (Some g)"
proof -
  from build_never_raises obtain r where
    r: "build_stroke_geometry E (path_points t) (radius_mu m t) (segments t) = Inr r"
    by blast
  show ?thesis
  proof (cases "usable E r")
    case True
    with ne r shown have "r = Some g"
      by (simp add: updateStrokeRubberBand_def radius_mu_def)
    with r True show ?thesis by simp
  next
    case False
    with ne r shown show ?thesis
      by (simp add: updateStrokeRubberBand_def radius_mu_def)
  qed
qed

lemma preview_shows_nothing:
  assumes ne: "path_points t \<noteq> []"
    and hidden: "stroke_rb (snd (updateStrokeRubberBand E m (t\<lparr>stroke_rb := None\<rparr>))) = None"
  shows "\<exists>r. build_stroke_geometry E (path_points t) (radius_mu m t) (segments t) = Inr r \<and>
             \<not> usable E r"
proof -
  from build_never_raises obtain r where
    r: "build_stroke_geometry E (path_points t) (radius_mu m t) (segments t) = Inr r"
    by blast
  have "\<not> usable E r"
  proof
    assume u: "usable E r"
    with ne r have "stroke_rb (snd (updateStrokeRubberBand E m (t\<lparr>stroke_rb := None\<rparr>))) = r"
      by (simp add: updateStrokeRubberBand_def radius_mu_def)
    with hidden have "r = None" by simp
    with u show False by (simp add: usable_def)
  qed
  with r show ?thesis by blast
qed

text \<open>
  C9: the decimated stroke depends on the samples only. Two runs of a gesture (the same
  left-button press, the same move events, the same host state at each of them), started
  from two tool states that agree on the brush radius and the segment count and differ
  in anything else (a stroke left from an earlier gesture, the flags, the rubber bands),
  sample the same point sequence. And the release path gets the geometry of the preview
  path: take a left-button release during a drag, and any tool state that holds the
  release's finalized stroke with the same radius and segment count, at the same map
  units per pixel. When \<open>updateStrokeRubberBand\<close>, run on that state with an empty rubber
  band, shows a geometry, \<open>canvasReleaseEvent\<close> runs its selection pass on that very
  geometry; when it shows none, \<open>canvasReleaseEvent\<close> runs no pass. Host calls are
  functions of their arguments here.
\<close>

theorem sampler_and_builder_deterministic:
  "(radius_px s1 = radius_px s2 \<and> segments s1 = segments s2 \<and> ev_button ev0 = LeftButton \<longrightarrow>
      path_points (drag_moves E evs (snd (canvasPressEvent v E W0 ev0 s1)))
        = path_points (drag_moves E evs (snd (canvasPressEvent v E W0 ev0 s2)))) \<and>
   (ev_button ev = LeftButton \<and> dragging s \<and>
    path_points t = path_points (finalize_stroke (mupp W) (ev_point ev) s) \<and>
    radius_px t = radius_px s \<and> segments t = segments s \<longrightarrow>
      (stroke_rb (snd (updateStrokeRubberBand E (mupp W) (t\<lparr>stroke_rb := None\<rparr>))) = Some g \<longrightarrow>
         canvasReleaseEvent v E W ev s = release_selecting v E W ev s g) \<and>
      (stroke_rb (snd (updateStrokeRubberBand E (mupp W) (t\<lparr>stroke_rb := None\<rparr>))) = None \<longrightarrow>
         canvasReleaseEvent v E W ev s =
           (Inr (),
            (finalize_stroke (mupp W) (ev_point ev) s)
              \<lparr>path_points := [], last_added := None, stroke_rb := None\<rparr>,
            W)))"
proof (intro conjI impI)
  assume a: "radius_px s1 = radius_px s2 \<and> segments s1 = segments s2 \<and> ev_button ev0 = LeftButton"
  then have l: "ev_button ev0 = LeftButton" by simp
  show "path_points (drag_moves E evs (snd (canvasPressEvent v E W0 ev0 s1)))
        = path_points (drag_moves E evs (snd (canvasPressEvent v E W0 ev0 s2)))"
    using a by (intro drag_moves_agree) (simp_all add: press_left [OF l])
next
  let ?s1 = "finalize_stroke (mupp W) (ev_point ev) s"
  assume b: "ev_button ev = LeftButton \<and> dragging s \<and>
    path_points t = path_points ?s1 \<and> radius_px t = radius_px s \<and> segments t = segments s"
  have pp: "path_points ?s1 = path_points s @ [ev_point ev]"
    and rs: "radius_px ?s1 = radius_px s" "segments ?s1 = segments s"
    by (simp_all add: finalize_stroke_def append_point_if_far_forced append_point_if_far_keeps)
  from b pp have ne: "path_points t \<noteq> []" by simp
  have args: "build_stroke_geometry E (path_points ?s1) (radius_mu (mupp W) ?s1) (segments ?s1)
      = build_stroke_geometry E (path_points t) (radius_mu (mupp W) t) (segments t)"
    using b rs by (simp add: radius_mu_def)
  {
    assume "stroke_rb (snd (updateStrokeRubberBand E (mupp W) (t\<lparr>stroke_rb := None\<rparr>))) = Some g"
    from preview_shows [OF ne this] args
    have "build_stroke_geometry E (path_points ?s1) (radius_mu (mupp W) ?s1) (segments ?s1)
        = Inr (Some g)" and "usable E (Some g)"
      by simp_all
    with b show "canvasReleaseEvent v E W ev s = release_selecting v E W ev s g"
      by (simp add: canvasReleaseEvent_def release_selecting_def Let_def)
  }
  {
    assume "stroke_rb (snd (updateStrokeRubberBand E (mupp W) (t\<lparr>stroke_rb := None\<rparr>))) = None"
    from preview_shows_nothing [OF ne this] args obtain r where
      "build_stroke_geometry E (path_points ?s1) (radius_mu (mupp W) ?s1) (segments ?s1) = Inr r"
      and "\<not> usable E r"
      by auto
    with b show "canvasReleaseEvent v E W ev s =
           (Inr (), ?s1\<lparr>path_points := [], last_added := None, stroke_rb := None\<rparr>, W)"
      by (auto simp: canvasReleaseEvent_def Let_def split: option.splits)
  }
qed

theorem sampler_and_builder_deterministic_witness:
  "radius_px (demo_tool True)
     = radius_px ((demo_tool False)\<lparr>path_points := [(7, 7)], last_added := Some (7, 7)\<rparr>) \<and>
   segments (demo_tool True)
     = segments ((demo_tool False)\<lparr>path_points := [(7, 7)], last_added := Some (7, 7)\<rparr>) \<and>
   ev_button (left_at (0, 0)) = LeftButton \<and>
   path_points (drag_moves box_engine
       [(demo_world {}, left_at (1, 0)), (demo_world {}, left_at (5, 0))]
       (snd (canvasPressEvent Polygon box_engine (demo_world {}) (left_at (0, 0))
              (demo_tool True)))) = [(0, 0), (5, 0)] \<and>
   path_points (drag_moves box_engine
       [(demo_world {}, left_at (1, 0)), (demo_world {}, left_at (5, 0))]
       (snd (canvasPressEvent Polygon box_engine (demo_world {}) (left_at (0, 0))
              ((demo_tool False)\<lparr>path_points := [(7, 7)], last_added := Some (7, 7)\<rparr>))))
     = [(0, 0), (5, 0)] \<and>
   ev_button (left_at (10, 0)) = LeftButton \<and>
   dragging (snd (canvasPressEvent Polygon box_engine (demo_world {1, 2}) (left_at (0, 0))
                   (demo_tool False))) \<and>
   path_points (finalize_stroke (mupp (demo_world {1, 2})) (ev_point (left_at (10, 0)))
      (snd (canvasPressEvent Polygon box_engine (demo_world {1, 2}) (left_at (0, 0))
             (demo_tool False)))) = [(0, 0), (10, 0)] \<and>
   stroke_rb (snd (updateStrokeRubberBand box_engine (mupp (demo_world {1, 2}))
                     ((demo_tool True)\<lparr>path_points := [(0, 0), (10, 0)], stroke_rb := None\<rparr>)))
     = Some demo_corridor \<and>
   canvasReleaseEvent Polygon box_engine (demo_world {1, 2}) (left_at (10, 0))
     (snd (canvasPressEvent Polygon box_engine (demo_world {1, 2}) (left_at (0, 0))
            (demo_tool False)))
     = release_selecting Polygon box_engine (demo_world {1, 2}) (left_at (10, 0))
         (snd (canvasPressEvent Polygon box_engine (demo_world {1, 2}) (left_at (0, 0))
                (demo_tool False))) demo_corridor"
proof -
  let ?W = "demo_world {1, 2}"
  let ?s = "snd (canvasPressEvent Polygon box_engine ?W (left_at (0, 0)) (demo_tool False))"
  let ?t = "(demo_tool True)\<lparr>path_points := [(0, 0), (10, 0)]\<rparr>"
  let ?evs = "[(demo_world {}, left_at (1, 0)), (demo_world {}, left_at (5, 0))]"
  let ?s2 = "(demo_tool False)\<lparr>path_points := [(7, 7)], last_added := Some (7, 7)\<rparr>"
  have run1: "path_points (drag_moves box_engine ?evs
       (snd (canvasPressEvent Polygon box_engine (demo_world {}) (left_at (0, 0))
              (demo_tool True)))) = [(0, 0), (5, 0)]"
    by (simp add: run_simps demo_simps)
  have cfg: "radius_px (demo_tool True) = radius_px ?s2" "segments (demo_tool True) = segments ?s2"
    by (simp_all add: demo_simps)
  have l0: "ev_button (left_at (0, 0)) = LeftButton" and l: "ev_button (left_at (10, 0)) = LeftButton"
    by (simp_all add: left_at_def)
  have d: "dragging ?s"
    by (simp add: run_simps demo_simps)
  have pp: "path_points (finalize_stroke (mupp ?W) (ev_point (left_at (10, 0))) ?s)
      = [(0, 0), (10, 0)]"
    by (simp add: run_simps demo_simps)
  have same: "path_points ?t = path_points (finalize_stroke (mupp ?W) (ev_point (left_at (10, 0))) ?s)"
    "radius_px ?t = radius_px ?s" "segments ?t = segments ?s"
    by (simp_all add: run_simps demo_simps)
  have shown: "stroke_rb (snd (updateStrokeRubberBand box_engine (mupp ?W)
                     (?t\<lparr>stroke_rb := None\<rparr>))) = Some demo_corridor"
    by (simp add: run_simps demo_simps)
  from sampler_and_builder_deterministic [of "demo_tool True" ?s2 "left_at (0, 0)" box_engine ?evs Polygon "demo_world {}"
              "left_at (10, 0)" ?s ?t ?W demo_corridor]
    run1 cfg l0 l d pp same shown
  show ?thesis by simp
qed

end
